theory Spec2Isabelle
  imports Main "HOL-Library.Log_Nat"
begin

section \<open>Values of the sequence layer\<close>

text \<open>
  The elements that sequences hold and that \<open>indexOf\<close> searches for: \<open>undefined\<close>,
  \<open>null\<close>, the booleans, the integer numbers and the not-a-number value. \<open>Num n\<close> is
  the number \<open>n\<close>; the platform holds numbers as doubles, so every integer up to \<open>2^53\<close>
  in magnitude is a number of the platform, and beyond that the multiples of the spacing
  of doubles are.
\<close>

datatype jsval = Undefined | Null | Bool bool | Num int | NaN

text \<open>The errors the platform raises in this code, each with the text of its message.\<close>

datatype error = TypeError string | RangeError string

text \<open>Numeric coercion of a value (\<open>Num n\<close> or \<open>NaN\<close>), as the operators apply it.\<close>

fun ToNumber :: "jsval \<Rightarrow> jsval" where
  "ToNumber Undefined = NaN"
| "ToNumber Null = Num 0"
| "ToNumber (Bool b) = Num (if b then 1 else 0)"
| "ToNumber (Num n) = Num n"
| "ToNumber NaN = NaN"

text \<open>The global \<open>isNaN(v)\<close>: \<open>v\<close> coerces to not-a-number.\<close>

definition isNaN :: "jsval \<Rightarrow> bool" where
  "isNaN v = (ToNumber v = NaN)"

text \<open>
  The result of an addition or subtraction of the platform is the double nearest to the
  exact result, and of two nearest ones the one with the even significand. A double has
  53 significant bits: an integer of up to \<open>2^53\<close> in magnitude is exact; a larger one
  loses its lowest \<open>bitlen \<bar>n\<bar> - 53\<close> bits.
\<close>

definition round_double :: "int \<Rightarrow> int" where
  "round_double n =
     (if \<bar>n\<bar> \<le> 2 ^ 53 then n
      else
        (let q = 2 ^ nat (bitlen \<bar>n\<bar> - 53); m = n div q; r = n mod q
         in q * (if 2 * r < q then m
                 else if q < 2 * r then m + 1
                 else if even m then m
                 else m + 1)))"

text \<open>\<open>a < b\<close> and \<open>a - b\<close> on coerced operands; a comparison with not-a-number is false.\<close>

definition js_lt :: "jsval \<Rightarrow> jsval \<Rightarrow> bool" where
  "js_lt a b = (case (ToNumber a, ToNumber b) of (Num x, Num y) \<Rightarrow> x < y | _ \<Rightarrow> False)"

definition js_minus :: "jsval \<Rightarrow> jsval \<Rightarrow> jsval" where
  "js_minus a b =
     (case (ToNumber a, ToNumber b) of (Num x, Num y) \<Rightarrow> Num (round_double (x - y)) | _ \<Rightarrow> NaN)"

text \<open>Truthiness, as \<open>if (v)\<close> and \<open>!v\<close> read a value.\<close>

fun truthy :: "jsval \<Rightarrow> bool" where
  "truthy Undefined = False"
| "truthy Null = False"
| "truthy (Bool b) = b"
| "truthy (Num n) = (n \<noteq> 0)"
| "truthy NaN = False"

text \<open>Strict equality \<open>a === b\<close> on these values: not-a-number equals nothing.\<close>

definition strict_eq :: "jsval \<Rightarrow> jsval \<Rightarrow> bool" where
  "strict_eq a b = (a = b \<and> a \<noteq> NaN)"

section \<open>Sequence-like objects\<close>

text \<open>
  A property key of an object is an integer index or a name. The objects handed to the
  sequence operations are
  \<^item> \<open>Array xs\<close>, a native array: it has the iteration capability, a \<open>length\<close>, the
    indices below it, and the native \<open>indexOf\<close>;
  \<^item> \<open>Generator xs\<close>, an object with the iteration capability only (a generator object
    or any custom iterable), whose cursor yields \<open>xs\<close>;
  \<^item> \<open>Object ps\<close>, an object without the iteration capability, with the properties
    \<open>ps\<close>: an array-like when \<open>length\<close> is among them.
\<close>

datatype key = Idx int | Name string

datatype iterable = Array "jsval list" | Generator "jsval list" | Object "(key \<times> jsval) list"

text \<open>\<open>Symbol.iterator in iterable\<close>\<close>

fun has_iterator :: "iterable \<Rightarrow> bool" where
  "has_iterator (Array xs) = True"
| "has_iterator (Generator xs) = True"
| "has_iterator (Object ps) = False"

text \<open>What \<open>for (x of iterable)\<close> visits when the iteration capability is there.\<close>

fun elements :: "iterable \<Rightarrow> jsval list" where
  "elements (Array xs) = xs"
| "elements (Generator xs) = xs"
| "elements (Object ps) = []"

text \<open>\<open>k in iterable\<close>, for the keys this code asks for: indices, \<open>length\<close>, \<open>indexOf\<close>.\<close>

fun has_property :: "iterable \<Rightarrow> key \<Rightarrow> bool" where
  "has_property (Array xs) (Idx i) = (0 \<le> i \<and> i < int (length xs))"
| "has_property (Array xs) (Name n) = (n = ''length'' \<or> n = ''indexOf'')"
| "has_property (Generator xs) k = False"
| "has_property (Object ps) k = (map_of ps k \<noteq> None)"

text \<open>\<open>iterable[k]\<close>: \<open>undefined\<close> where the property is missing.\<close>

fun get_property :: "iterable \<Rightarrow> key \<Rightarrow> jsval" where
  "get_property (Array xs) (Idx i) = (if 0 \<le> i \<and> i < int (length xs) then xs ! nat i else Undefined)"
| "get_property (Array xs) (Name n) = (if n = ''length'' then Num (int (length xs)) else Undefined)"
| "get_property (Generator xs) k = Undefined"
| "get_property (Object ps) k = (case map_of ps k of None \<Rightarrow> Undefined | Some v \<Rightarrow> v)"

text \<open>The property key a computed number selects, as in \<open>iterable[iterable.length - 1]\<close>.\<close>

fun key_of :: "jsval \<Rightarrow> key" where
  "key_of (Num n) = Idx n"
| "key_of NaN = Name ''NaN''"
| "key_of Undefined = Name ''undefined''"
| "key_of Null = Name ''null''"
| "key_of (Bool b) = Name (if b then ''true'' else ''false'')"

subsection \<open>\<open>iterator\<close>: the sequence adapter\<close>

text \<open>
  The upper bound that the loop \<open>for (let i = 0; i < iterable.length; i++)\<close> can reach:
  the numeric reading of \<open>length\<close>, or 0 when that is not a number.
\<close>

definition length_bound :: "iterable \<Rightarrow> int" where
  "length_bound obj = (case ToNumber (get_property obj (Name ''length'')) of Num n \<Rightarrow> n | _ \<Rightarrow> 0)"

text \<open>
  The values that the generator wrapped around an array-like yields from index \<open>i\<close> on.
  The index is exact: \<open>i++\<close> moves every \<open>i\<close> below \<open>2^53\<close> by one, which serves every
  \<open>length\<close> up to \<open>2^53\<close>.
\<close>

function arraylike_items :: "iterable \<Rightarrow> int \<Rightarrow> jsval list" where
  "arraylike_items obj i =
     (if js_lt (Num i) (get_property obj (Name ''length''))
      then get_property obj (Idx i) # arraylike_items obj (i + 1)
      else [])"
  by pat_completeness auto
termination
  by (relation "measure (\<lambda>(obj, i). nat (length_bound obj - i))")
     (auto simp: js_lt_def length_bound_def split: jsval.splits)

text \<open>
  \<open>iterator(iterable)\<close>: the element sequence of the cursor it returns (the cursor is
  read from the front, one element per pull), or the error it throws.
\<close>

definition iterator :: "iterable \<Rightarrow> error + jsval list" where
  "iterator iterable =
     (if has_iterator iterable then Inr (elements iterable)
      else if has_property iterable (Name ''length'') then Inr (arraylike_items iterable 0)
      else Inl (TypeError ''is not iterable''))"

subsection \<open>\<open>first\<close> and \<open>last\<close> (here \<open>last_fn\<close>)\<close>

text \<open>
  Modelled from the spec: the class \<open>Optional\<close> that \<open>first\<close> and \<open>last\<close> construct is
  not among the source files. The spec describes it as a presence/absence wrapper that
  tells "no element" from an element that is falsy or null; \<open>Optional.of\<close> wraps a value,
  \<open>Optional.ofNull\<close> is the empty wrapper, and \<open>Optional.ofNullable\<close> is empty for
  \<open>undefined\<close> and \<open>null\<close>.
\<close>

datatype optional = Present jsval | Absent

definition Optional_of :: "jsval \<Rightarrow> optional" where
  "Optional_of x = Present x"

definition Optional_ofNull :: optional where
  "Optional_ofNull = Absent"

definition Optional_ofNullable :: "jsval \<Rightarrow> optional" where
  "Optional_ofNullable x = (if x = Undefined \<or> x = Null then Absent else Present x)"

definition first :: "iterable \<Rightarrow> error + optional" where
  "first iterable =
     (if has_iterator iterable then
        (case elements iterable of x # _ \<Rightarrow> Inr (Optional_of x) | [] \<Rightarrow> Inr Optional_ofNull)
      else if has_property iterable (Idx 0) then Inr (Optional_of (get_property iterable (Idx 0)))
      else Inl (TypeError ''is not iterable''))"

text \<open>\<open>let x; for (x of iterable) {}\<close>: the variable after the loop.\<close>

definition last_visited :: "jsval list \<Rightarrow> jsval" where
  "last_visited xs = foldl (\<lambda>x y. y) Undefined xs"

definition last_fn :: "iterable \<Rightarrow> error + optional" where
  "last_fn iterable =
     (if has_property iterable (Name ''length'') then
        Inr (Optional_ofNullable
              (get_property iterable
                 (key_of (js_minus (get_property iterable (Name ''length'')) (Num 1)))))
      else if has_iterator iterable then Inr (Optional_ofNullable (last_visited (elements iterable)))
      else Inl (TypeError ''is not iterable''))"

section \<open>Search\<close>

subsection \<open>\<open>all\<close> (here \<open>all_fn\<close>)\<close>

text \<open>
  \<open>all(iterable, fn)\<close> with a test function, on the elements that \<open>iterator\<close> hands
  to the loop: false at the first element the test rejects.
\<close>

fun all_fn :: "'a list \<Rightarrow> ('a \<Rightarrow> bool) \<Rightarrow> bool" where
  "all_fn [] fn = True"
| "all_fn (i # rest) fn = (if \<not> fn i then False else all_fn rest fn)"

subsection \<open>\<open>indexOf\<close>\<close>

text \<open>
  A caller's function is called with fewer arguments than it may name; a parameter that
  gets no argument is \<open>undefined\<close>. The equality function is a function of two values,
  and its result is read for truthiness. The functions a caller supplies are taken to
  return a value: one that throws is not among the inputs of these definitions.
\<close>

type_synonym callback = "jsval \<Rightarrow> jsval \<Rightarrow> jsval"

text \<open>The loop of the branch "user-provided equality test", from position \<open>i\<close>.\<close>

fun indexOf_user :: "callback \<Rightarrow> jsval \<Rightarrow> jsval list \<Rightarrow> int \<Rightarrow> jsval" where
  "indexOf_user fn item [] i = Bool False"
| "indexOf_user fn item (x # xs) i =
     (if truthy (fn item Undefined) then Num i else indexOf_user fn item xs (i + 1))"

text \<open>The loop of the not-a-number branch.\<close>

fun indexOf_nan :: "jsval \<Rightarrow> jsval list \<Rightarrow> int \<Rightarrow> jsval" where
  "indexOf_nan item [] i = Bool False"
| "indexOf_nan item (x # xs) i = (if isNaN item then Num i else indexOf_nan item xs (i + 1))"

text \<open>The loop of the fallback branch, by strict equality.\<close>

fun indexOf_eq :: "jsval \<Rightarrow> jsval list \<Rightarrow> int \<Rightarrow> jsval" where
  "indexOf_eq item [] i = Bool False"
| "indexOf_eq item (x # xs) i = (if strict_eq item x then Num i else indexOf_eq item xs (i + 1))"

text \<open>The native \<open>Array.prototype.indexOf\<close>: strict equality, \<open>-1\<close> when absent.\<close>

definition native_indexOf :: "jsval list \<Rightarrow> jsval \<Rightarrow> int" where
  "native_indexOf xs item = (case indexOf_eq item xs 0 of Num i \<Rightarrow> i | _ \<Rightarrow> - 1)"

text \<open>
  \<open>indexOf(iterable, item, fn)\<close>; \<open>None\<close> is an omitted \<open>fn\<close>. The result is the
  position as a number, or \<open>false\<close>. An object that has a property \<open>indexOf\<close> without
  being an array holds a plain value there, and calling it throws.
\<close>

definition indexOf :: "iterable \<Rightarrow> jsval \<Rightarrow> callback option \<Rightarrow> error + jsval" where
  "indexOf iterable item fn =
     (case fn of
        Some f \<Rightarrow>
          (case iterator iterable of Inl e \<Rightarrow> Inl e | Inr xs \<Rightarrow> Inr (indexOf_user f item xs 0))
      | None \<Rightarrow>
          if isNaN item then
            (case iterator iterable of Inl e \<Rightarrow> Inl e | Inr xs \<Rightarrow> Inr (indexOf_nan item xs 0))
          else if has_property iterable (Name ''indexOf'') then
            (case iterable of
               Array xs \<Rightarrow>
                 (let index = native_indexOf xs item
                  in if index < 0 then Inr (Bool False) else Inr (Num index))
             | _ \<Rightarrow> Inl (TypeError ''iterable.indexOf is not a function''))
          else
            (case iterator iterable of Inl e \<Rightarrow> Inl e | Inr xs \<Rightarrow> Inr (indexOf_eq item xs 0)))"

section \<open>Combinators\<close>

subsection \<open>\<open>ifilter\<close>\<close>

text \<open>
  \<open>ifilter\<close> asks its receiver \<open>this\<close> for the member \<open>iterable\<close>, so the receiver is
  explicit here: the members a method can ask it for as a sequence adapter, each one
  present or not. \<open>fn_object\<close> is the object the source file builds: its members are
  \<open>all\<close>, \<open>any\<close>, \<open>arange\<close>, \<open>asyncExec\<close>, \<open>concat\<close>, \<open>first\<close>, \<open>iterator\<close>, \<open>indexOf\<close>,
  \<open>imap\<close>, \<open>irange\<close>, \<open>ifilter\<close>, \<open>forEach\<close>, \<open>getPrototypes\<close>, \<open>last\<close>, \<open>logError\<close>,
  \<open>partition\<close>, \<open>setsAreEqual\<close>, \<open>timeout\<close> and \<open>zip\<close>; there is no member \<open>iterable\<close>.
\<close>

record receiver =
  member_iterator :: "(iterable \<Rightarrow> error + jsval list) option"
  member_iterable :: "(iterable \<Rightarrow> error + jsval list) option"

definition fn_object :: receiver where
  "fn_object = \<lparr>member_iterator = Some iterator, member_iterable = None\<rparr>"

text \<open>The loop of \<open>ifilter\<close> over the elements still to come, at ordinal \<open>i\<close>.\<close>

fun ifilter_loop :: "callback \<Rightarrow> jsval list \<Rightarrow> int \<Rightarrow> jsval list" where
  "ifilter_loop filterFn [] i = []"
| "ifilter_loop filterFn (x # xs) i =
     (if truthy (filterFn x (Num i)) then x # ifilter_loop filterFn xs (i + 1)
      else ifilter_loop filterFn xs (i + 1))"

text \<open>
  What pulling the generator \<open>this.ifilter(iterable, filterFn)\<close> to its end delivers:
  the values it yields, or the error that its first pull throws. Calling a member that
  is \<open>undefined\<close> throws a \<open>TypeError\<close>.
\<close>

definition ifilter :: "receiver \<Rightarrow> iterable \<Rightarrow> callback \<Rightarrow> error + jsval list" where
  "ifilter this iterable filterFn =
     (case member_iterable this of
        None \<Rightarrow> Inl (TypeError ''this.iterable is not a function'')
      | Some adapt \<Rightarrow>
          (case adapt iterable of
             Inl e \<Rightarrow> Inl e
           | Inr xs \<Rightarrow> Inr (ifilter_loop filterFn xs 0)))"

subsection \<open>\<open>zip\<close> (here \<open>zip_fn\<close>)\<close>

text \<open>
  What a cursor's \<open>next()\<close> returns: the fields \<open>done\<close> and \<open>value\<close> of the source are
  \<open>iter_done\<close> and \<open>iter_value\<close>.
\<close>

record iteration =
  iter_done :: bool
  iter_value :: jsval

text \<open>
  The state of a cursor: the elements it has not yet delivered, and the value of its
  first report of exhaustion. That value is \<open>undefined\<close> for the cursor of an array and
  the return value for a generator; every later report carries \<open>undefined\<close>.
\<close>

type_synonym cursor = "jsval list \<times> jsval"

fun cursor_next :: "cursor \<Rightarrow> iteration \<times> cursor" where
  "cursor_next ([], ret) = (\<lparr>iter_done = True, iter_value = ret\<rparr>, ([], Undefined))"
| "cursor_next (x # xs, ret) = (\<lparr>iter_done = False, iter_value = x\<rparr>, (xs, ret))"

text \<open>
  A generator object (as any cursor object) is its own cursor, and it is consumed as it
  is read: handed to \<open>zip\<close> twice, both places advance the one cursor. So generator
  objects live in a heap, by address. The arguments of \<open>zip\<close> are arrays, generator
  objects given by their address, and objects without the iteration capability.
\<close>

type_synonym heap = "nat \<Rightarrow> cursor"

datatype zip_arg = ArrayArg "jsval list" | GeneratorArg nat | ObjectArg "(key \<times> jsval) list"

text \<open>
  \<open>iterable[Symbol.iterator]()\<close>: an array makes a new cursor of its own, which only
  \<open>zip\<close> holds; a generator object returns itself; on an object without the capability
  the call throws.
\<close>

datatype itr = Own cursor | Shared nat

fun symbol_iterator :: "zip_arg \<Rightarrow> error + itr" where
  "symbol_iterator (ArrayArg xs) = Inr (Own (xs, Undefined))"
| "symbol_iterator (GeneratorArg a) = Inr (Shared a)"
| "symbol_iterator (ObjectArg ps) = Inl (TypeError ''iterable[Symbol.iterator] is not a function'')"

text \<open>\<open>iterables.map(iterable => iterable[Symbol.iterator]())\<close>\<close>

fun make_iterators :: "zip_arg list \<Rightarrow> error + itr list" where
  "make_iterators [] = Inr []"
| "make_iterators (a # rest) =
     (case symbol_iterator a of
        Inl e \<Rightarrow> Inl e
      | Inr i \<Rightarrow> (case make_iterators rest of Inl e \<Rightarrow> Inl e | Inr is \<Rightarrow> Inr (i # is)))"

text \<open>The state of the cursor behind an entry of \<open>iterators\<close>.\<close>

fun cursor_state :: "heap \<Rightarrow> itr \<Rightarrow> cursor" where
  "cursor_state h (Own c) = c"
| "cursor_state h (Shared a) = h a"

text \<open>\<open>iterators.map(itr => itr.next())\<close>: the calls happen from left to right.\<close>

fun next_all :: "itr list \<Rightarrow> heap \<Rightarrow> iteration list \<times> itr list \<times> heap" where
  "next_all [] h = ([], [], h)"
| "next_all (Own c # rest) h =
     (let (iteration, c') = cursor_next c;
          (iterations, rest', h') = next_all rest h
      in (iteration # iterations, Own c' # rest', h'))"
| "next_all (Shared a # rest) h =
     (let (iteration, c') = cursor_next (h a);
          (iterations, rest', h') = next_all rest (h(a := c'))
      in (iteration # iterations, Shared a # rest', h'))"

text \<open>
  One pull of the generator \<open>zip\<close>: \<open>iterators.map(itr => itr.next())\<close> advances every
  cursor, the loop test is \<open>!this.all(iterations, iteration => iteration.done)\<close>, and the
  body yields \<open>iterations.map(iteration => iteration.value)\<close>. \<open>None\<close> is the end of the
  generator.
\<close>

definition zip_next :: "itr list \<Rightarrow> heap \<Rightarrow> jsval list option \<times> itr list \<times> heap" where
  "zip_next iterators h =
     (let (iterations, iterators', h') = next_all iterators h
      in if \<not> all_fn iterations iter_done then (Some (map iter_value iterations), iterators', h')
         else (None, iterators', h'))"

text \<open>The elements that the cursors behind \<open>iterators\<close> have left, counted per entry.\<close>

definition elements_left :: "itr list \<Rightarrow> heap \<Rightarrow> nat" where
  "elements_left iterators h = sum_list (map (\<lambda>i. length (fst (cursor_state h i))) iterators)"

text \<open>
  Pulling the generator to its end. A pull that yields has moved at least one cursor that
  still had an element, and no cursor gains elements, so the elements left decrease.
\<close>

function zip_drain :: "itr list \<Rightarrow> heap \<Rightarrow> jsval list list" where
  "zip_drain iterators h =
     (case zip_next iterators h of
        (Some tuple, iterators', h') \<Rightarrow> tuple # zip_drain iterators' h'
      | (None, iterators', h') \<Rightarrow> [])"
  by pat_completeness auto
termination
proof (relation "measure (\<lambda>(its, h). elements_left its h)")
  show "wf (measure (\<lambda>(its, h). elements_left its h))" by simp
next
  fix iterators :: "itr list" and h :: heap and x1 x2 iterators' h' tuple
  assume a: "(x1, x2) = zip_next iterators h" and b: "x1 = Some tuple"
    and c: "(iterators', h') = x2"
  have shorter: "length (fst (snd (cursor_next c))) \<le> length (fst c)" for c :: cursor
    by (cases c rule: cursor_next.cases) simp_all
  have moved: "\<not> iter_done (fst (cursor_next c)) \<Longrightarrow>
      length (fst (snd (cursor_next c))) < length (fst c)" for c :: cursor
    by (cases c rule: cursor_next.cases) simp_all
  have heap_le: "next_all its g = (ns, its', g') \<Longrightarrow> length (fst (g' b)) \<le> length (fst (g b))"
    for its g ns its' g' b
  proof (induction its arbitrary: g ns its' g')
    case Nil
    then show ?case by simp
  next
    case (Cons i its)
    show ?case
    proof (cases i)
      case (Own c)
      with Cons.prems obtain ns0 its0 where "next_all its g = (ns0, its0, g')"
        by (auto split: prod.splits)
      then show ?thesis by (rule Cons.IH)
    next
      case (Shared a)
      with Cons.prems obtain ns0 its0
        where "next_all its (g(a := snd (cursor_next (g a)))) = (ns0, its0, g')"
        by (auto split: prod.splits)
      then have "length (fst (g' b)) \<le> length (fst ((g(a := snd (cursor_next (g a)))) b))"
        by (rule Cons.IH)
      also have "\<dots> \<le> length (fst (g b))" using shorter [of "g a"] by simp
      finally show ?thesis .
    qed
  qed
  have left_mono: "(\<And>b. length (fst (g b)) \<le> length (fst (g0 b))) \<Longrightarrow>
      elements_left its g \<le> elements_left its g0" for its g g0
  proof (induction its)
    case Nil
    show ?case by (simp add: elements_left_def)
  next
    case (Cons i its)
    then have "elements_left its g \<le> elements_left its g0" by simp
    moreover have "length (fst (cursor_state g i)) \<le> length (fst (cursor_state g0 i))"
      using Cons.prems by (cases i) simp_all
    ultimately show ?case by (simp add: elements_left_def)
  qed
  have decreases: "next_all its g = (ns, its', g') \<Longrightarrow>
      elements_left its' g' \<le> elements_left its g
      \<and> (\<not> all_fn ns iter_done \<longrightarrow> elements_left its' g' < elements_left its g)"
    for its g ns its' g'
  proof (induction its arbitrary: g ns its' g')
    case Nil
    then show ?case by (auto simp: elements_left_def)
  next
    case (Cons i its)
    show ?case
    proof (cases i)
      case (Own c)
      with Cons.prems obtain ns0 its0 where rest: "next_all its g = (ns0, its0, g')"
        and ns: "ns = fst (cursor_next c) # ns0"
        and its': "its' = Own (snd (cursor_next c)) # its0"
        by (auto split: prod.splits)
      from Cons.IH [OF rest] shorter [of c] moved [of c] Own ns its'
      show ?thesis by (auto simp: elements_left_def)
    next
      case (Shared a)
      let ?g = "g(a := snd (cursor_next (g a)))"
      from Shared Cons.prems obtain ns0 its0 where rest: "next_all its ?g = (ns0, its0, g')"
        and ns: "ns = fst (cursor_next (g a)) # ns0"
        and its': "its' = Shared a # its0"
        by (auto split: prod.splits)
      have step: "length (fst (?g b)) \<le> length (fst (g b))" for b
        using shorter [of "g a"] by simp
      have "elements_left its ?g \<le> elements_left its g" by (rule left_mono) (rule step)
      moreover have "length (fst (g' a)) \<le> length (fst (?g a))" using rest by (rule heap_le)
      moreover have "length (fst (?g a)) \<le> length (fst (g a))" by (rule step)
      moreover have "\<not> iter_done (fst (cursor_next (g a))) \<Longrightarrow>
          length (fst (?g a)) < length (fst (g a))"
        using moved [of "g a"] by simp
      moreover note Cons.IH [OF rest]
      moreover have "elements_left its' g' = length (fst (g' a)) + elements_left its0 g'"
        by (simp add: its' elements_left_def)
      moreover have "elements_left (i # its) g = length (fst (g a)) + elements_left its g"
        by (simp add: Shared elements_left_def)
      moreover have "all_fn ns iter_done
          \<longleftrightarrow> iter_done (fst (cursor_next (g a))) \<and> all_fn ns0 iter_done"
        by (simp add: ns)
      ultimately show ?thesis by linarith
    qed
  qed
  from a b c obtain ns where "next_all iterators h = (ns, iterators', h')"
    and "\<not> all_fn ns iter_done"
    by (auto simp: zip_next_def Let_def split: prod.splits if_splits)
  with decreases [of iterators h ns iterators' h']
  show "((iterators', h'), (iterators, h)) \<in> measure (\<lambda>(its, h). elements_left its h)" by simp
qed

text \<open>
  \<open>zip(...iterables)\<close>, pulled to its end, on the heap \<open>h\<close> of generator objects: the
  tuples it yields, or the error of the first pull.
\<close>

definition zip_fn :: "heap \<Rightarrow> zip_arg list \<Rightarrow> error + jsval list list" where
  "zip_fn h iterables =
     (case make_iterators iterables of
        Inl e \<Rightarrow> Inl e
      | Inr iterators \<Rightarrow> Inr (zip_drain iterators h))"

subsection \<open>\<open>arange\<close> and \<open>irange\<close>\<close>

text \<open>
  The rest arguments of the two range functions: each is a number or a function (the
  mapping function, called as \<open>fn(val, i)\<close>).
\<close>

datatype arg = Number int | Function callback

text \<open>\<open>typeof(args[1]) === 'number'\<close> and \<open>typeof(args[0]) === 'function'\<close>\<close>

fun second_is_number :: "arg list \<Rightarrow> bool" where
  "second_is_number (a # Number n # rest) = True"
| "second_is_number args = False"

fun first_is_function :: "arg list \<Rightarrow> bool" where
  "first_is_function (Function f # rest) = True"
| "first_is_function args = False"

text \<open>\<open>args.shift()\<close>: the first argument, or \<open>undefined\<close> (\<open>None\<close>), and the arguments left.\<close>

fun shift :: "arg list \<Rightarrow> arg option \<times> arg list" where
  "shift [] = (None, [])"
| "shift (a # rest) = (Some a, rest)"

text \<open>
  \<open>start\<close> and \<open>end\<close> are read by \<open>end - start\<close>, \<open>val < end\<close> and \<open>val++\<close>, and \<open>val\<close> is
  stored or yielded only after \<open>val < end\<close> held. So an argument is kept as the value
  these operators read: a number as itself, a function as not-a-number, a missing
  argument as \<open>undefined\<close>.
\<close>

fun operand :: "arg option \<Rightarrow> jsval" where
  "operand None = Undefined"
| "operand (Some (Number n)) = Num n"
| "operand (Some (Function f)) = NaN"

fun the_function :: "arg option \<Rightarrow> callback option" where
  "the_function (Some (Function f)) = Some f"
| "the_function a = None"

text \<open>"Process arguments": \<open>start\<close>, \<open>end\<close> (here \<open>endv\<close>) and \<open>fn\<close> of both range functions.\<close>

definition range_arguments :: "arg list \<Rightarrow> jsval \<times> jsval \<times> callback option" where
  "range_arguments args =
     (let (start, endv, args1) =
            (if second_is_number args then
               (let (a, r) = shift args; (b, r') = shift r in (operand a, operand b, r'))
             else
               (let (b, r) = shift args in (Num 0, operand b, r)));
          fn = (if first_is_function args1 then the_function (fst (shift args1)) else None)
      in (start, endv, fn))"

text \<open>The value the loop body produces at \<open>val\<close> and \<open>i\<close>: \<open>val\<close>, or \<open>fn(val, i)\<close>.\<close>

fun produce :: "callback option \<Rightarrow> jsval \<Rightarrow> int \<Rightarrow> jsval" where
  "produce None val i = val"
| "produce (Some f) val i = f val (Num i)"

text \<open>\<open>val++\<close> and \<open>i++\<close>: the double nearest to the sum, so the value stops moving at \<open>2^53\<close>.\<close>

definition increment :: "jsval \<Rightarrow> jsval" where
  "increment val = (case ToNumber val of Num n \<Rightarrow> Num (round_double (n + 1)) | _ \<Rightarrow> NaN)"

definition count_up :: "int \<Rightarrow> int" where
  "count_up i = round_double (i + 1)"

text \<open>
  \<open>new Array(len)\<close> for a number \<open>len\<close>: an array of \<open>len\<close> empty slots (read as
  \<open>undefined\<close>), and a \<open>RangeError\<close> unless \<open>len\<close> is an integer from 0 to \<open>2^32 - 1\<close>.
\<close>

definition new_Array :: "jsval \<Rightarrow> error + jsval list" where
  "new_Array len =
     (case len of
        Num n \<Rightarrow> if 0 \<le> n \<and> n < 2 ^ 32 then Inr (replicate (nat n) Undefined)
                 else Inl (RangeError ''Invalid array length'')
      | _ \<Rightarrow> Inl (RangeError ''Invalid array length''))"

text \<open>\<open>ret[i] = v\<close>: an assignment past the end grows the array.\<close>

definition array_set :: "jsval list \<Rightarrow> int \<Rightarrow> jsval \<Rightarrow> jsval list" where
  "array_set ret i v =
     (if nat i < length ret then ret[nat i := v]
      else ret @ replicate (nat i - length ret) Undefined @ [v])"

text \<open>
  The loop \<open>for (let i = 0, val = start; val < end; i++, val++) ret[i] = ...\<close>. It need
  not end: when \<open>val\<close> reaches a number that \<open>val++\<close> does not move while \<open>val < end\<close>
  holds, it runs for ever. \<open>None\<close> is the loop that never ends.
\<close>

partial_function (option) arange_loop ::
    "callback option \<Rightarrow> int \<Rightarrow> jsval \<Rightarrow> jsval \<Rightarrow> jsval list \<Rightarrow> jsval list option" where
  "arange_loop fn i val endv ret =
     (if js_lt val endv
      then arange_loop fn (count_up i) (increment val) endv (array_set ret i (produce fn val i))
      else Some ret)"

text \<open>\<open>arange(...args)\<close>: the array it returns or the error it throws, when it ends.\<close>

definition arange :: "arg list \<Rightarrow> (error + jsval list) option" where
  "arange args =
     (let (start, endv, fn) = range_arguments args
      in case new_Array (js_minus endv start) of
           Inl e \<Rightarrow> Some (Inl e)
         | Inr ret \<Rightarrow> map_option Inr (arange_loop fn 0 start endv ret))"

text \<open>
  The generator \<open>irange\<close>: its state between two pulls is the loop's \<open>i\<close> and \<open>val\<close>, with
  \<open>end\<close> and \<open>fn\<close> fixed. One pull tests \<open>val < end\<close> and yields, or ends the generator.
\<close>

record range_cursor =
  cur_i :: int
  cur_val :: jsval
  cur_end :: jsval
  cur_fn :: "callback option"

definition irange :: "arg list \<Rightarrow> range_cursor" where
  "irange args =
     (let (start, endv, fn) = range_arguments args
      in \<lparr>cur_i = 0, cur_val = start, cur_end = endv, cur_fn = fn\<rparr>)"

definition irange_next :: "range_cursor \<Rightarrow> jsval option \<times> range_cursor" where
  "irange_next c =
     (if js_lt (cur_val c) (cur_end c)
      then (Some (produce (cur_fn c) (cur_val c) (cur_i c)),
            c\<lparr>cur_i := count_up (cur_i c), cur_val := increment (cur_val c)\<rparr>)
      else (None, c))"

text \<open>
  The elements the lazy variant delivers when it is pulled one at a time to its end;
  \<open>None\<close> when it has no end.
\<close>

partial_function (option) irange_drain :: "range_cursor \<Rightarrow> jsval list option" where
  "irange_drain c =
     (case irange_next c of
        (Some v, c') \<Rightarrow> Option.bind (irange_drain c') (\<lambda>rest. Some (v # rest))
      | (None, c') \<Rightarrow> Some [])"

section \<open>The coroutine trampoline \<open>asyncExec\<close>\<close>

text \<open>
  The values that pass between a routine and the trampoline: a primitive of the sequence
  layer, a string, a plain object with its properties, a promise of the platform (known
  by a number), and an error object that the platform threw.
\<close>

datatype payload =
    Prim jsval
  | Str string
  | Obj "(string \<times> payload) list"
  | Promise nat
  | Exception error

text \<open>
  A generator object, seen from its driver. One resumption of the routine ends in one of
  three ways: it reaches a \<open>yield\<close> (\<open>{done: false, value}\<close>), it returns
  (\<open>{done: true, value}\<close>), or a failure leaves it (\<open>next\<close> or \<open>throw\<close> itself throws).
  A routine paused at a \<open>yield\<close> has two entry points: \<open>iterator.next(v)\<close> makes the
  \<open>yield\<close> expression evaluate to \<open>v\<close>, and \<open>iterator.throw(e)\<close> raises \<open>e\<close> at that
  \<open>yield\<close>, inside whatever \<open>try\<close> blocks enclose it. \<open>Yield v on_next on_throw\<close>
  carries the yielded value and the two entry points of that suspension point. A routine
  may go on for ever, so the type is coinductive.
\<close>

codatatype step =
    Yield payload "payload \<Rightarrow> step" "payload \<Rightarrow> step"
  | Return payload
  | Throw payload

text \<open>
  The state of one run between two turns of the event loop, with the state of the outer
  promise:
  \<^item> \<open>Suspended p on_next on_throw\<close>: the routine is paused at a \<open>yield\<close> with these two
    entry points, the continuations \<open>resumeGenerator\<close> and \<open>throwGenerator\<close> are
    registered on the pending value \<open>p\<close>, and the outer promise is pending;
  \<^item> \<open>Following p\<close>: the routine has returned the pending value \<open>p\<close>; the outer promise
    has adopted it and settles as \<open>p\<close> settles;
  \<^item> \<open>Done v\<close>: the outer promise is fulfilled with \<open>v\<close>;
  \<^item> \<open>Failed e\<close>: the outer promise is rejected with \<open>e\<close>.
\<close>

datatype run =
    Suspended payload "payload \<Rightarrow> step" "payload \<Rightarrow> step"
  | Following payload
  | Done payload
  | Failed payload

text \<open>
  The two functions the platform hands to the executor. \<open>resolve(v)\<close> with a \<open>v\<close> whose
  \<open>then\<close> is callable makes the outer promise adopt \<open>v\<close>; with any other \<open>v\<close> it
  fulfils the outer promise with \<open>v\<close>. Of the values of this model only a promise has a
  callable \<open>then\<close>. \<open>reject(e)\<close> rejects the outer promise with \<open>e\<close>, whatever \<open>e\<close> is.
\<close>

fun resolve :: "payload \<Rightarrow> run" where
  "resolve (Promise n) = Following (Promise n)"
| "resolve v = Done v"

definition reject :: "payload \<Rightarrow> run" where
  "reject e = Failed e"

text \<open>
  \<open>'then' in v\<close>: the operator \<open>in\<close> throws a \<open>TypeError\<close> when its right operand is not
  an object.
\<close>

fun then_in :: "payload \<Rightarrow> error + bool" where
  "then_in (Prim p) = Inl (TypeError ''Cannot use in operator to search for then'')"
| "then_in (Str s) = Inl (TypeError ''Cannot use in operator to search for then'')"
| "then_in (Obj ps) = Inr (map_of ps ''then'' \<noteq> None)"
| "then_in (Promise n) = Inr True"
| "then_in (Exception e) = Inr False"

text \<open>
  \<open>v.then(resumeGenerator, throwGenerator)\<close>, for a \<open>v\<close> with a property \<open>then\<close>: a
  promise registers the two continuations; an object of this model holds a plain value
  under \<open>then\<close>, and calling that throws.
\<close>

fun call_then :: "payload \<Rightarrow> error + unit" where
  "call_then (Promise n) = Inr ()"
| "call_then v = Inl (TypeError ''iteration.value.then is not a function'')"

text \<open>
  \<open>processIteration\<close> inside the \<open>try\<close> of its caller: the argument is the outcome of
  \<open>iterator.next(value)\<close> or \<open>iterator.throw(error)\<close>, and everything thrown in the
  \<open>try\<close> block, by that call or by \<open>processIteration\<close>, goes to \<open>reject\<close>. The branch for a
  value without \<open>then\<close> calls \<open>resumeGenerator(iteration.value)\<close> at once, which is the
  recursive call here. A routine can yield such values for ever, so the function is
  partial: \<open>None\<close> is a run that never hands control back.
\<close>

partial_function (option) processIteration :: "step \<Rightarrow> run option" where
  "processIteration iteration =
     (case iteration of
        Throw e \<Rightarrow> Some (reject e)
      | Return v \<Rightarrow> Some (resolve v)
      | Yield v on_next on_throw \<Rightarrow>
          (case then_in v of
             Inl e \<Rightarrow> Some (reject (Exception e))
           | Inr has_then \<Rightarrow>
               if has_then then
                 (case call_then v of
                    Inl e \<Rightarrow> Some (reject (Exception e))
                  | Inr u \<Rightarrow> Some (Suspended v on_next on_throw))
               else processIteration (on_next v)))"

text \<open>
  \<open>resumeGenerator(value)\<close> and \<open>throwGenerator(error)\<close>, for the cursor paused at a
  suspension point with the entry points \<open>on_next\<close> and \<open>on_throw\<close>: the first calls
  \<open>iterator.next(value)\<close>, the second \<open>iterator.throw(error)\<close>.
\<close>

definition resumeGenerator :: "(payload \<Rightarrow> step) \<Rightarrow> (payload \<Rightarrow> step) \<Rightarrow> payload \<Rightarrow> run option" where
  "resumeGenerator on_next on_throw v = processIteration (on_next v)"

definition throwGenerator :: "(payload \<Rightarrow> step) \<Rightarrow> (payload \<Rightarrow> step) \<Rightarrow> payload \<Rightarrow> run option" where
  "throwGenerator on_next on_throw e = processIteration (on_throw e)"

text \<open>
  \<open>asyncExec(generator)\<close>: \<open>generator()\<close> makes the cursor, which has not started: its
  \<open>next\<close> runs the body from the top, and its \<open>throw\<close> would end it with the failure
  thrown. The executor ends with \<open>resumeGenerator(undefined)\<close>.
\<close>

definition asyncExec :: "(payload \<Rightarrow> step) \<Rightarrow> run option" where
  "asyncExec generator = resumeGenerator generator (\<lambda>e. Throw e) (Prim Undefined)"

text \<open>
  A pending value settles. For a suspended run the platform calls the continuation
  registered for success or the one for failure. A run whose outer promise follows a
  pending value settles with it. A run that is settled stays as it is.
\<close>

datatype settlement = Fulfilled payload | Rejected payload

fun settle :: "run \<Rightarrow> settlement \<Rightarrow> run option" where
  "settle (Suspended p on_next on_throw) (Fulfilled v) = resumeGenerator on_next on_throw v"
| "settle (Suspended p on_next on_throw) (Rejected e) = throwGenerator on_next on_throw e"
| "settle (Following p) (Fulfilled v) = Some (Done v)"
| "settle (Following p) (Rejected e) = Some (Failed e)"
| "settle (Done v) s = Some (Done v)"
| "settle (Failed e) s = Some (Failed e)"

section \<open>Notions used to state the properties\<close>

text \<open>
  What a cursor in the state \<open>c\<close> reports in round \<open>r\<close>, counted from 0, when it is
  advanced once per round: its element at position \<open>r\<close>; in the round after its last
  element the value of its first report of exhaustion; \<open>undefined\<close> in every later round.
\<close>

definition reported :: "cursor \<Rightarrow> nat \<Rightarrow> jsval" where
  "reported c r =
     (if r < length (fst c) then fst c ! r
      else if r = length (fst c) then snd c
      else Undefined)"

text \<open>
  The cursor that \<open>zip\<close> reads an argument through, in its state when \<open>zip\<close> starts;
  whether an argument has the iteration capability; the addresses of the generator
  objects among the arguments; and the greatest length among lists, 0 when there is none.
\<close>

fun cursor_of :: "heap \<Rightarrow> zip_arg \<Rightarrow> cursor" where
  "cursor_of h (ArrayArg xs) = (xs, Undefined)"
| "cursor_of h (GeneratorArg a) = h a"
| "cursor_of h (ObjectArg ps) = ([], Undefined)"

fun has_symbol_iterator :: "zip_arg \<Rightarrow> bool" where
  "has_symbol_iterator (ArrayArg xs) = True"
| "has_symbol_iterator (GeneratorArg a) = True"
| "has_symbol_iterator (ObjectArg ps) = False"

fun generator_refs :: "zip_arg list \<Rightarrow> nat list" where
  "generator_refs [] = []"
| "generator_refs (GeneratorArg a # rest) = a # generator_refs rest"
| "generator_refs (x # rest) = generator_refs rest"

definition longest :: "jsval list list \<Rightarrow> nat" where
  "longest xss = foldr max (map length xss) 0"

text \<open>The addresses behind the shared entries of \<open>iterators\<close>, and an entry after one pull.\<close>

fun shared_refs :: "itr list \<Rightarrow> nat list" where
  "shared_refs [] = []"
| "shared_refs (Shared a # rest) = a # shared_refs rest"
| "shared_refs (Own c # rest) = shared_refs rest"

fun step_itr :: "itr \<Rightarrow> itr" where
  "step_itr (Own c) = Own (snd (cursor_next c))"
| "step_itr (Shared a) = Shared a"

text \<open>Whether a value is a pending value: it has a callable \<open>then\<close>.\<close>

fun is_pending :: "payload \<Rightarrow> bool" where
  "is_pending (Promise n) = True"
| "is_pending v = False"

text \<open>The routine body \<open>return v * 2\<close> of the scenario, on the values of this model.\<close>

definition times_two :: "payload \<Rightarrow> payload" where
  "times_two v = (case v of Prim (Num n) \<Rightarrow> Prim (Num (n * 2)) | _ \<Rightarrow> Prim NaN)"

text \<open>
  The recursive loop of \<open>zip\<close> is unfolded one step at a time, by hand; the equations of
  the two range loops are used to evaluate them on given arguments.
\<close>

declare zip_drain.simps [simp del]

declare arange_loop.simps [code] irange_drain.simps [code]

section \<open>Properties of the numbers\<close>

lemma round_double_exact: "\<bar>n\<bar> \<le> 2 ^ 53 \<Longrightarrow> round_double n = n"
  by (simp add: round_double_def)

lemma round_double_negative:
  assumes "n < 0"
  shows "round_double n < 0"
proof (cases "\<bar>n\<bar> \<le> 2 ^ 53")
  case True
  with assms show ?thesis by (simp add: round_double_def)
next
  case False
  define b where "b = bitlen \<bar>n\<bar>"
  define q :: int where "q = 2 ^ nat (b - 53)"
  define m where "m = n div q"
  from False have pos: "0 < \<bar>n\<bar>" by simp
  from bitlen_bounds [OF pos] have low: "2 ^ nat (b - 1) \<le> \<bar>n\<bar>" and high: "\<bar>n\<bar> < 2 ^ nat b"
    by (simp_all add: b_def)
  from False high have hb: "(2::int) ^ 53 < 2 ^ nat b" by simp
  have "53 < nat b" by (rule power_less_imp_less_exp [OF _ hb]) simp
  then have "nat (b - 1) = Suc (nat (b - 53)) + 51" by simp
  then have "(2::int) ^ nat (b - 1) = 2 * q * 2 ^ 51" by (simp add: q_def power_add)
  moreover have "0 < q" by (simp add: q_def)
  ultimately have "2 * q \<le> 2 ^ nat (b - 1)" by simp
  with low assms have "n \<le> q * (- 2)" by simp
  then have "n div q \<le> (q * (- 2)) div q" by (rule zdiv_mono1) (fact \<open>0 < q\<close>)
  moreover from \<open>0 < q\<close> have "(q * (- 2)) div q = - 2"
    by (subst nonzero_mult_div_cancel_left) simp_all
  ultimately have m: "m \<le> - 2" by (simp add: m_def)
  from False have "round_double n =
      q * (if 2 * (n mod q) < q then m
           else if q < 2 * (n mod q) then m + 1
           else if even m then m
           else m + 1)"
    by (simp add: round_double_def Let_def q_def m_def b_def)
  also have "\<dots> < 0" using \<open>0 < q\<close> m by (auto simp: mult_pos_neg)
  finally show ?thesis .
qed

section \<open>Properties of the sequence adapter, \<open>first\<close> and \<open>last\<close>\<close>

text \<open>
  Claim C10. Take an array-like of length 0: an object without the iteration capability
  whose \<open>length\<close> is 0 and which has no property at index 0 (nor under the key \<open>-1\<close>,
  which is no index of an array-like, but is the key \<open>length - 1\<close> that \<open>last\<close> reads).
  \<open>first\<close> throws the "is not iterable" \<open>TypeError\<close> on it, while \<open>iterator\<close> accepts it
  and gives a cursor that yields nothing, and \<open>last\<close> accepts it and returns the empty
  \<open>Optional\<close>. The reason is that \<open>first\<close> recognises an object without the iteration
  capability by its property at index 0 and never looks at \<open>length\<close>: on every such
  object \<open>qs\<close>, whatever its length, \<open>first\<close> throws exactly when index 0 is missing.
\<close>

theorem first_rejects_empty_arraylike:
  assumes len: "map_of ps (Name ''length'') = Some (Num 0)"
    and no_first: "map_of ps (Idx 0) = None"
    and no_last: "map_of ps (Idx (- 1)) = None"
  shows "first (Object ps) = Inl (TypeError ''is not iterable'')
       \<and> iterator (Object ps) = Inr []
       \<and> last_fn (Object ps) = Inr Absent
       \<and> first (Object qs) =
           (if map_of qs (Idx 0) = None then Inl (TypeError ''is not iterable'')
            else Inr (Present (get_property (Object qs) (Idx 0))))"
proof -
  from no_first have "first (Object ps) = Inl (TypeError ''is not iterable'')"
    by (simp add: first_def)
  moreover from len have "iterator (Object ps) = Inr []"
    by (simp add: iterator_def js_lt_def)
  moreover from len no_last have "last_fn (Object ps) = Inr Absent"
    by (simp add: last_fn_def js_minus_def round_double_def Optional_ofNullable_def)
  moreover have "first (Object qs) =
      (if map_of qs (Idx 0) = None then Inl (TypeError ''is not iterable'')
       else Inr (Present (get_property (Object qs) (Idx 0))))"
    by (simp add: first_def Optional_of_def)
  ultimately show ?thesis by simp
qed

text \<open>
  The object \<open>{length: 0}\<close> is such an array-like; and \<open>first\<close> accepts \<open>{length: 2, 0: 7}\<close>.
\<close>

theorem first_rejects_empty_arraylike_witness:
  "first (Object [(Name ''length'', Num 0)]) = Inl (TypeError ''is not iterable'')
   \<and> iterator (Object [(Name ''length'', Num 0)]) = Inr []
   \<and> last_fn (Object [(Name ''length'', Num 0)]) = Inr Absent
   \<and> first (Object [(Name ''length'', Num 2), (Idx 0, Num 7)]) = Inr (Present (Num 7))"
  using first_rejects_empty_arraylike
    [of "[(Name ''length'', Num 0)]" "[(Name ''length'', Num 2), (Idx 0, Num 7)]"]
  by simp

section \<open>Properties of \<open>zip\<close>\<close>

text \<open>One call of \<open>next()\<close>, in terms of what the cursor reports round by round.\<close>

lemma cursor_next_value: "iter_value (fst (cursor_next c)) = reported c 0"
  by (cases c rule: cursor_next.cases) (simp_all add: reported_def)

lemma cursor_next_done: "iter_done (fst (cursor_next c)) \<longleftrightarrow> fst c = []"
  by (cases c rule: cursor_next.cases) simp_all

lemma cursor_next_rest: "fst (snd (cursor_next c)) = tl (fst c)"
  by (cases c rule: cursor_next.cases) simp_all

lemma reported_next: "reported (snd (cursor_next c)) r = reported c (Suc r)"
  by (cases c rule: cursor_next.cases) (auto simp: reported_def)

text \<open>
  When no generator object stands twice among the cursors, one round advances every
  cursor once, each independently of the others.
\<close>

lemma state_other:
  "a \<notin> set (shared_refs its) \<Longrightarrow>
   map (\<lambda>i. f (cursor_state (h(a := c)) i)) its = map (\<lambda>i. f (cursor_state h i)) its"
  by (induction its rule: shared_refs.induct) auto

lemma next_all_distinct:
  "distinct (shared_refs its) \<Longrightarrow>
   next_all its h =
     (map (\<lambda>i. fst (cursor_next (cursor_state h i))) its,
      map step_itr its,
      (\<lambda>b. if b \<in> set (shared_refs its) then snd (cursor_next (h b)) else h b))"
proof (induction its arbitrary: h rule: shared_refs.induct)
  case 1
  show ?case by simp
next
  case (2 a rest)
  let ?h = "h(a := snd (cursor_next (h a)))"
  from "2.prems" have fresh: "a \<notin> set (shared_refs rest)" and rest: "distinct (shared_refs rest)"
    by simp_all
  have heap: "(\<lambda>b. if b \<in> set (shared_refs rest) then snd (cursor_next (?h b)) else ?h b)
      = (\<lambda>b. if b \<in> set (shared_refs (Shared a # rest)) then snd (cursor_next (h b)) else h b)"
    using fresh by auto
  have same: "map (\<lambda>i. fst (cursor_next (cursor_state ?h i))) rest
      = map (\<lambda>i. fst (cursor_next (cursor_state h i))) rest"
    using fresh by (rule state_other)
  have "next_all (Shared a # rest) h
      = (fst (cursor_next (h a)) # fst (next_all rest ?h),
         Shared a # fst (snd (next_all rest ?h)),
         snd (snd (next_all rest ?h)))"
    by (simp add: case_prod_beta)
  also have "next_all rest ?h
      = (map (\<lambda>i. fst (cursor_next (cursor_state ?h i))) rest,
         map step_itr rest,
         (\<lambda>b. if b \<in> set (shared_refs rest) then snd (cursor_next (?h b)) else ?h b))"
    using rest by (rule "2.IH")
  finally show ?case unfolding same heap by simp
next
  case (3 c rest)
  then show ?case by (simp add: case_prod_beta)
qed

lemma shared_member: "Shared a \<in> set its \<Longrightarrow> a \<in> set (shared_refs its)"
  by (induction its rule: shared_refs.induct) auto

lemma state_after:
  "i \<in> set its \<Longrightarrow>
   cursor_state (\<lambda>b. if b \<in> set (shared_refs its) then snd (cursor_next (h b)) else h b)
     (step_itr i)
   = snd (cursor_next (cursor_state h i))"
  by (cases i) (simp_all add: shared_member)

lemma shared_refs_step: "shared_refs (map step_itr its) = shared_refs its"
  by (induction its rule: shared_refs.induct) simp_all

lemma all_done_iff:
  "all_fn (map (\<lambda>i. fst (cursor_next (cursor_state h i))) its) iter_done
     \<longleftrightarrow> longest (map (\<lambda>i. fst (cursor_state h i)) its) = 0"
proof (induction its)
  case Nil
  show ?case by (simp add: longest_def)
next
  case (Cons i its)
  then show ?case by (auto simp: longest_def cursor_next_done)
qed

lemma longest_tl: "longest (map tl xss) = longest xss - 1"
proof (induction xss)
  case Nil
  show ?case by (simp add: longest_def)
next
  case (Cons xs xss)
  then show ?case by (cases xs) (auto simp: longest_def)
qed

lemma zip_drain_unfold:
  assumes "distinct (shared_refs its)"
  shows "zip_drain its h =
    (if longest (map (\<lambda>i. fst (cursor_state h i)) its) = 0 then []
     else map (\<lambda>i. reported (cursor_state h i) 0) its
          # zip_drain (map step_itr its)
              (\<lambda>b. if b \<in> set (shared_refs its) then snd (cursor_next (h b)) else h b))"
  by (subst zip_drain.simps)
     (simp add: zip_next_def next_all_distinct [OF assms] all_done_iff cursor_next_value comp_def)

lemma zip_drain_rounds:
  "distinct (shared_refs its) \<Longrightarrow> longest (map (\<lambda>i. fst (cursor_state h i)) its) = n \<Longrightarrow>
   zip_drain its h = map (\<lambda>r. map (\<lambda>i. reported (cursor_state h i) r) its) [0..<n]"
proof (induction n arbitrary: its h)
  case 0
  then show ?case by (subst zip_drain_unfold) simp_all
next
  case (Suc n)
  let ?h = "\<lambda>b. if b \<in> set (shared_refs its) then snd (cursor_next (h b)) else h b"
  let ?its = "map step_itr its"
  have eq: "map (\<lambda>i. fst (cursor_state ?h i)) ?its
      = map tl (map (\<lambda>i. fst (cursor_state h i)) its)"
    by (simp add: state_after cursor_next_rest)
  have len: "longest (map (\<lambda>i. fst (cursor_state ?h i)) ?its) = n"
    unfolding eq longest_tl using Suc.prems by simp
  from Suc.prems have "distinct (shared_refs ?its)" by (simp add: shared_refs_step)
  then have "zip_drain ?its ?h = map (\<lambda>r. map (\<lambda>i. reported (cursor_state ?h i) r) ?its) [0..<n]"
    using len by (rule Suc.IH)
  also have "\<dots> = map (\<lambda>r. map (\<lambda>i. reported (cursor_state h i) (Suc r)) its) [0..<n]"
    by (simp add: state_after reported_next)
  finally have rest: "zip_drain ?its ?h
      = map (\<lambda>r. map (\<lambda>i. reported (cursor_state h i) r) its) (map Suc [0..<n])"
    by (simp add: comp_def)
  have "[0..<Suc n] = 0 # map Suc [0..<n]"
    by (simp add: upt_conv_Cons map_Suc_upt del: upt_Suc)
  with Suc.prems rest show ?case by (subst zip_drain_unfold) simp_all
qed

lemma make_iterators_ok:
  "list_all has_symbol_iterator iterables \<Longrightarrow>
   \<exists>its. make_iterators iterables = Inr its
        \<and> map (cursor_state h) its = map (cursor_of h) iterables
        \<and> shared_refs its = generator_refs iterables"
proof (induction iterables)
  case Nil
  show ?case by simp
next
  case (Cons a iterables)
  then show ?case by (cases a) auto
qed

text \<open>
  Claim C1, as the code has it. Take arguments that all have the iteration capability,
  no generator object being passed twice. \<open>zip\<close> yields one tuple per round, holding
  what the cursor of every argument reports in that round: its current element or, once
  it is exhausted, the value of its report of exhaustion, which is the return value of
  a generator in the round after its last element, and \<open>undefined\<close> for an array and in
  every later round. It ends only in the round in which all cursors report exhaustion:
  it yields as many tuples as the longest input has elements.
\<close>

theorem zip_runs_to_longest:
  assumes "list_all has_symbol_iterator iterables"
    and "distinct (generator_refs iterables)"
  shows "zip_fn h iterables =
           Inr (map (\<lambda>r. map (\<lambda>a. reported (cursor_of h a) r) iterables)
                  [0..<longest (map (\<lambda>a. fst (cursor_of h a)) iterables)])"
proof -
  from assms(1) obtain its where its: "make_iterators iterables = Inr its"
    and states: "map (cursor_state h) its = map (cursor_of h) iterables"
    and refs: "shared_refs its = generator_refs iterables"
    using make_iterators_ok by blast
  from assms(2) refs have "distinct (shared_refs its)" by simp
  then have "zip_drain its h
      = map (\<lambda>r. map (\<lambda>i. reported (cursor_state h i) r) its)
          [0..<longest (map (\<lambda>i. fst (cursor_state h i)) its)]"
    by (rule zip_drain_rounds) simp
  then have "zip_drain its h
      = map (\<lambda>r. map (\<lambda>c. reported c r) (map (cursor_state h) its))
          [0..<longest (map fst (map (cursor_state h) its))]"
    by (simp add: comp_def)
  then show ?thesis unfolding states by (simp add: zip_fn_def its comp_def)
qed

text \<open>
  \<open>zip([1,2,3],[4,5])\<close> yields \<open>[1,4]\<close>, \<open>[2,5]\<close> and \<open>[3,undefined]\<close>. With a generator
  that yields 1 and returns 9, \<open>zip(g, [4,5,6])\<close> yields \<open>[1,4]\<close>, \<open>[9,5]\<close> and
  \<open>[undefined,6]\<close>.
\<close>

theorem zip_runs_to_longest_witness:
  "zip_fn (\<lambda>a. ([], Undefined)) [ArrayArg [Num 1, Num 2, Num 3], ArrayArg [Num 4, Num 5]]
     = Inr [[Num 1, Num 4], [Num 2, Num 5], [Num 3, Undefined]]
   \<and> zip_fn (\<lambda>a. ([Num 1], Num 9)) [GeneratorArg 0, ArrayArg [Num 4, Num 5, Num 6]]
     = Inr [[Num 1, Num 4], [Num 9, Num 5], [Undefined, Num 6]]"
  using zip_runs_to_longest
      [of "[ArrayArg [Num 1, Num 2, Num 3], ArrayArg [Num 4, Num 5]]" "\<lambda>a. ([], Undefined)"]
    zip_runs_to_longest
      [of "[GeneratorArg 0, ArrayArg [Num 4, Num 5, Num 6]]" "\<lambda>a. ([Num 1], Num 9)"]
  by (simp add: reported_def longest_def upt_conv_Cons)

text \<open>
  Claim C1 as it is written says that \<open>zip([1,2,3],[4,5])\<close> yields exactly \<open>[1,4]\<close> and
  \<open>[2,5]\<close>. It does not.
\<close>

theorem zip_shortest_counterexample:
  "zip_fn (\<lambda>a. ([], Undefined)) [ArrayArg [Num 1, Num 2, Num 3], ArrayArg [Num 4, Num 5]]
     \<noteq> Inr [[Num 1, Num 4], [Num 2, Num 5]]"
  by (simp add: zip_fn_def zip_drain_unfold longest_def reported_def)

text \<open>
  A generator object passed twice is one cursor that every round advances twice: with a
  generator that yields 1, 2, 3 and returns 9, \<open>zip(g, g)\<close> yields \<open>[1,2]\<close> and \<open>[3,9]\<close>.
\<close>

lemma zip_shared_cursor:
  "zip_fn (\<lambda>a. ([Num 1, Num 2, Num 3], Num 9)) [GeneratorArg 0, GeneratorArg 0]
     = Inr [[Num 1, Num 2], [Num 3, Num 9]]"
  by (simp add: zip_fn_def zip_drain.simps zip_next_def)

section \<open>Properties of \<open>indexOf\<close>\<close>

lemma indexOf_nan_first:
  "isNaN item \<Longrightarrow> indexOf_nan item xs i = (if xs = [] then Bool False else Num i)"
  by (cases xs) simp_all

lemma indexOf_user_first:
  "indexOf_user f item xs i
     = (if xs \<noteq> [] \<and> truthy (f item Undefined) then Num i else Bool False)"
  by (induction xs arbitrary: i) simp_all

text \<open>
  Claim C4 says that a search for not-a-number without \<open>equals_fn\<close> tests each candidate
  and returns the position of the first candidate that is not-a-number, so that
  \<open>indexOf([1, NaN, 3], NaN) = 1\<close>. The loop of that branch tests \<open>isNaN(item)\<close>, not
  \<open>isNaN(x)\<close>: on an array the result is position 0 whenever the array has an element,
  whatever the elements are, and \<open>indexOf([1, NaN, 3], NaN)\<close> is 0.
\<close>

theorem indexOf_nan_ignores_elements:
  "indexOf (Array xs) NaN None = Inr (if xs = [] then Bool False else Num 0)
   \<and> indexOf (Array [Num 1, NaN, Num 3]) NaN None = Inr (Num 0)"
  by (simp add: indexOf_def iterator_def isNaN_def indexOf_nan_first)

text \<open>
  Claim C5 says that with an \<open>equals_fn\<close> the result is the position of the first element
  that matches the item under \<open>equals_fn\<close>. The loop of that branch calls \<open>fn(item)\<close> and
  never hands it the element: on an array the result is position 0 when the array has an
  element and \<open>fn(item, undefined)\<close> is truthy, and \<open>false\<close> otherwise. With strict
  equality as \<open>equals_fn\<close>, \<open>indexOf([1, 2, 3], 2, equals_fn)\<close> is \<open>false\<close>, not 1.
\<close>

theorem indexOf_user_ignores_elements:
  "indexOf (Array xs) item (Some f)
     = Inr (if xs \<noteq> [] \<and> truthy (f item Undefined) then Num 0 else Bool False)
   \<and> indexOf (Array [Num 1, Num 2, Num 3]) (Num 2) (Some (\<lambda>a b. Bool (strict_eq a b)))
     = Inr (Bool False)"
  by (simp add: indexOf_def iterator_def indexOf_user_first strict_eq_def)

section \<open>Properties of \<open>ifilter\<close>\<close>

text \<open>
  Claim C7 says that \<open>filter\<close> yields the source elements that satisfy the predicate. The
  generator asks the object for its member \<open>iterable\<close>, which the object does not have:
  on every input the first pull throws a \<open>TypeError\<close> and nothing is ever yielded.
\<close>

theorem ifilter_throws:
  "ifilter fn_object iterable filterFn = Inl (TypeError ''this.iterable is not a function'')"
  by (simp add: ifilter_def fn_object_def)

text \<open>
  The loop itself does what the claim says: it keeps the elements whose predicate value
  at (element, source ordinal) is truthy, in source order. With a receiver whose member
  \<open>iterable\<close> is the adapter \<open>iterator\<close>, \<open>ifilter\<close> delivers exactly those.
\<close>

lemma ifilter_loop_filters:
  "ifilter_loop f xs i
     = map fst (filter (\<lambda>(x, j). truthy (f x (Num j)))
                  (zip xs (map (\<lambda>k. i + int k) [0..<length xs])))"
proof (induction xs arbitrary: i)
  case Nil
  show ?case by simp
next
  case (Cons x xs)
  have "map (\<lambda>k. i + int k) [0..<length (x # xs)]
        = i # map (\<lambda>k. (i + 1) + int k) [0..<length xs]"
    by (simp add: upt_conv_Cons map_Suc_upt [symmetric] comp_def del: upt_Suc)
  with Cons.IH [of "i + 1"] show ?case by simp
qed

lemma ifilter_with_iterator:
  "ifilter (fn_object\<lparr>member_iterable := member_iterator fn_object\<rparr>) (Array xs) f
     = Inr (map fst (filter (\<lambda>(x, j). truthy (f x (Num j))) (zip xs (map int [0..<length xs]))))"
  by (simp add: ifilter_def fn_object_def iterator_def ifilter_loop_filters)

section \<open>Properties of the range functions\<close>

text \<open>\<open>val++\<close> does not move a value of \<open>2^53\<close>.\<close>

lemma increment_stops: "increment (Num (2 ^ 53)) = Num (2 ^ 53)"
  by code_simp

lemma range_arguments_pair [simp]:
  "range_arguments [Number s, Number e] = (Num s, Num e, None)"
  by (simp add: range_arguments_def)

text \<open>
  Claim C6 says that for \<open>end <= start\<close> both variants give an empty result and never
  raise. For \<open>end < start\<close> the eager variant evaluates \<open>new Array(end - start)\<close> with a
  negative length, which throws a \<open>RangeError\<close>; the lazy variant yields nothing.
\<close>

theorem arange_negative_length_raises:
  assumes "e < s"
  shows "arange [Number s, Number e] = Some (Inl (RangeError ''Invalid array length''))
       \<and> irange_drain (irange [Number s, Number e]) = Some []"
proof
  from assms have "round_double (e - s) < 0" by (intro round_double_negative) simp
  then show "arange [Number s, Number e] = Some (Inl (RangeError ''Invalid array length''))"
    by (simp add: arange_def new_Array_def js_minus_def)
  from assms show "irange_drain (irange [Number s, Number e]) = Some []"
    by (subst irange_drain.simps) (simp add: irange_def irange_next_def js_lt_def)
qed

text \<open>\<open>arange(5, 2)\<close> throws, and \<open>irange(5, 2)\<close> is exhausted at once.\<close>

theorem arange_negative_length_raises_witness:
  "arange [Number 5, Number 2] = Some (Inl (RangeError ''Invalid array length''))
   \<and> irange_drain (irange [Number 5, Number 2]) = Some []"
  using arange_negative_length_raises [of 2 5] by simp

text \<open>
  Claim C8 says that the lazy variant produces the same element sequence as the eager
  variant on the same arguments. On \<open>(3, 1, v => v)\<close> the eager variant throws and
  the lazy variant produces the empty sequence.
\<close>

theorem range_variants_differ:
  "arange [Number 3, Number 1, Function (\<lambda>val i. val)]
     = Some (Inl (RangeError ''Invalid array length''))
   \<and> irange_drain (irange [Number 3, Number 1, Function (\<lambda>val i. val)]) = Some []"
proof
  show "arange [Number 3, Number 1, Function (\<lambda>val i. val)]
     = Some (Inl (RangeError ''Invalid array length''))"
    by (simp add: arange_def range_arguments_def new_Array_def js_minus_def round_double_def)
  show "irange_drain (irange [Number 3, Number 1, Function (\<lambda>val i. val)]) = Some []"
    by (subst irange_drain.simps)
       (simp add: range_arguments_def irange_def irange_next_def js_lt_def)
qed

text \<open>
  Where \<open>start\<close> and \<open>end\<close> are integers from \<open>-2^53\<close> to \<open>2^53\<close> with
  \<open>0 <= end - start < 2^32\<close>, both loops end and the two variants agree: the eager loop
  fills the \<open>end - start\<close> slots of the new array with the values that the lazy variant
  yields, in the same order.
\<close>

lemma loops_agree_on_safe_integers:
  "nat (e - v) = k \<Longrightarrow> - (2 ^ 53) \<le> v \<Longrightarrow> e \<le> 2 ^ 53 \<Longrightarrow> 0 \<le> i \<Longrightarrow> i + (e - v) \<le> 2 ^ 53 \<Longrightarrow>
   length ret = nat i + nat (e - v) \<Longrightarrow>
   \<exists>ys. irange_drain \<lparr>cur_i = i, cur_val = Num v, cur_end = Num e, cur_fn = fn\<rparr> = Some ys
       \<and> length ys = nat (e - v)
       \<and> arange_loop fn i (Num v) (Num e) ret = Some (take (nat i) ret @ ys)"
proof (induction k arbitrary: v i ret)
  case 0
  then have "\<not> js_lt (Num v) (Num e)" by (simp add: js_lt_def)
  with 0 show ?case
    by (subst irange_drain.simps, subst arange_loop.simps) (simp add: irange_next_def)
next
  case (Suc k)
  let ?x = "produce fn (Num v) i"
  let ?ret = "array_set ret i ?x"
  from Suc.prems have lt: "js_lt (Num v) (Num e)" by (simp add: js_lt_def)
  from Suc.prems have val: "increment (Num v) = Num (v + 1)"
    by (simp add: increment_def round_double_exact)
  from Suc.prems have cnt: "count_up i = i + 1"
    by (simp add: count_up_def round_double_exact)
  from Suc.prems have inside: "nat i < length ret" by simp
  then have set: "?ret = ret[nat i := ?x]" by (simp add: array_set_def)
  from Suc.prems have "\<exists>ys. irange_drain \<lparr>cur_i = i + 1, cur_val = Num (v + 1), cur_end = Num e, cur_fn = fn\<rparr>
          = Some ys
       \<and> length ys = nat (e - (v + 1))
       \<and> arange_loop fn (i + 1) (Num (v + 1)) (Num e) ?ret = Some (take (nat (i + 1)) ?ret @ ys)"
    by (intro Suc.IH) (simp_all add: set)
  then obtain ys
    where drain: "irange_drain \<lparr>cur_i = i + 1, cur_val = Num (v + 1), cur_end = Num e, cur_fn = fn\<rparr>
          = Some ys"
      and len: "length ys = nat (e - (v + 1))"
      and loop: "arange_loop fn (i + 1) (Num (v + 1)) (Num e) ?ret
          = Some (take (nat (i + 1)) ?ret @ ys)"
    by blast
  from Suc.prems have nat_suc: "nat (i + 1) = Suc (nat i)" by simp
  have front: "take (nat (i + 1)) ?ret = take (nat i) ret @ [?x]"
    using inside by (simp add: set nat_suc take_Suc_conv_app_nth)
  have "irange_drain \<lparr>cur_i = i, cur_val = Num v, cur_end = Num e, cur_fn = fn\<rparr> = Some (?x # ys)"
    using lt drain by (subst irange_drain.simps) (simp add: irange_next_def val cnt)
  moreover have "arange_loop fn i (Num v) (Num e) ret = Some (take (nat i) ret @ ?x # ys)"
    using lt loop by (subst arange_loop.simps) (simp add: val cnt front)
  moreover from Suc.prems len have "length (?x # ys) = nat (e - v)" by simp
  ultimately show ?case by blast
qed

lemma range_variants_agree_on_safe_integers:
  assumes "range_arguments args = (Num s, Num e, fn)"
    and "- (2 ^ 53) \<le> s" and "e \<le> 2 ^ 53" and "s \<le> e" and "e - s < 2 ^ 32"
  shows "\<exists>xs. arange args = Some (Inr xs) \<and> length xs = nat (e - s)
             \<and> irange_drain (irange args) = Some xs"
proof -
  let ?ret = "replicate (nat (e - s)) Undefined"
  from assms have len: "new_Array (js_minus (Num e) (Num s)) = Inr ?ret"
    by (simp add: new_Array_def js_minus_def round_double_exact)
  from assms obtain ys
    where "irange_drain \<lparr>cur_i = 0, cur_val = Num s, cur_end = Num e, cur_fn = fn\<rparr> = Some ys"
      and "length ys = nat (e - s)"
      and "arange_loop fn 0 (Num s) (Num e) ?ret = Some (take (nat 0) ?ret @ ys)"
    using loops_agree_on_safe_integers [of e s "nat (e - s)" 0 ?ret fn] by auto
  with assms(1) len show ?thesis by (simp add: arange_def irange_def)
qed

text \<open>
  Beyond \<open>2^53\<close> in magnitude \<open>val++\<close> skips numbers, and the eager variant can return an
  array with a slot left empty where the lazy variant yields fewer elements.
\<close>

lemma range_variants_differ_beyond_safe_integers:
  "arange [Number (- (2 ^ 53) - 2), Number (- (2 ^ 53) + 1)]
     = Some (Inr [Num (- (2 ^ 53) - 2), Num (- (2 ^ 53)), Undefined])
   \<and> irange_drain (irange [Number (- (2 ^ 53) - 2), Number (- (2 ^ 53) + 1)])
     = Some [Num (- (2 ^ 53) - 2), Num (- (2 ^ 53))]"
  by code_simp

section \<open>Properties of the trampoline\<close>

lemma processIteration_Return: "processIteration (Return v) = Some (resolve v)"
  by (subst processIteration.simps) simp

lemma processIteration_Throw: "processIteration (Throw e) = Some (Failed e)"
  by (subst processIteration.simps) (simp add: reject_def)

lemma processIteration_Yield:
  "processIteration (Yield v on_next on_throw) =
     (case then_in v of
        Inl e \<Rightarrow> Some (Failed (Exception e))
      | Inr has_then \<Rightarrow>
          if has_then then
            (case call_then v of
               Inl e \<Rightarrow> Some (Failed (Exception e))
             | Inr u \<Rightarrow> Some (Suspended v on_next on_throw))
          else processIteration (on_next v))"
  by (subst processIteration.simps) (simp add: reject_def split: sum.splits)

lemma processIteration_promise:
  "processIteration (Yield (Promise n) on_next on_throw)
     = Some (Suspended (Promise n) on_next on_throw)"
  by (simp add: processIteration_Yield)

lemma resolve_plain: "\<not> is_pending v \<Longrightarrow> resolve v = Done v"
  by (cases v) simp_all

text \<open>
  Claim C3, as the code has it. A run suspended on a pending value that settles
  successfully with \<open>v\<close> continues with the outcome of the routine's entry point
  \<open>on_next\<close> of that suspension point at \<open>v\<close>. When that outcome is the routine's return
  with a value \<open>r\<close> that is not itself a pending value, the outer promise is fulfilled
  with \<open>r\<close>. When the routine returns a pending value, the outer promise adopts it, and
  is fulfilled or rejected as that pending value is. The run of a routine whose first
  step awaits a promise is suspended on it with the entry points of that step, and a
  routine that returns at once a value that is not pending is done with it.
\<close>

theorem asyncExec_feeds_value_back:
  "settle (Suspended p on_next on_throw) (Fulfilled v) = processIteration (on_next v)
   \<and> (on_next v = Return r \<and> \<not> is_pending r \<longrightarrow>
        settle (Suspended p on_next on_throw) (Fulfilled v) = Some (Done r))
   \<and> (on_next v = Return (Promise m) \<longrightarrow>
        settle (Suspended p on_next on_throw) (Fulfilled v) = Some (Following (Promise m)))
   \<and> settle (Following q) (Fulfilled w) = Some (Done w)
   \<and> settle (Following q) (Rejected e) = Some (Failed e)
   \<and> (generator (Prim Undefined) = Yield (Promise n) on_next' on_throw' \<longrightarrow>
        asyncExec generator = Some (Suspended (Promise n) on_next' on_throw'))
   \<and> (generator (Prim Undefined) = Return r \<and> \<not> is_pending r \<longrightarrow>
        asyncExec generator = Some (Done r))"
  by (simp add: resumeGenerator_def asyncExec_def processIteration_Return
        processIteration_promise resolve_plain)

text \<open>
  The scenario of the spec: the routine awaits a promise and returns twice the value it
  gets. Its run is suspended on the promise, and when the promise resolves to 5 the run
  is done with 10. A routine that returns 10 without awaiting is done with 10 at once;
  one that returns a promise leaves the outer promise following that promise.
\<close>

theorem asyncExec_feeds_value_back_witness:
  "asyncExec (\<lambda>u. Yield (Promise 0) (\<lambda>v. Return (times_two v)) (\<lambda>e. Throw e))
     = Some (Suspended (Promise 0) (\<lambda>v. Return (times_two v)) (\<lambda>e. Throw e))
   \<and> settle (Suspended (Promise 0) (\<lambda>v. Return (times_two v)) (\<lambda>e. Throw e))
        (Fulfilled (Prim (Num 5)))
     = Some (Done (Prim (Num 10)))
   \<and> asyncExec (\<lambda>u. Return (Prim (Num 10))) = Some (Done (Prim (Num 10)))
   \<and> settle (Suspended (Promise 0) (\<lambda>v. Return (Promise 1)) (\<lambda>e. Throw e))
        (Fulfilled (Prim (Num 5)))
     = Some (Following (Promise 1))"
proof (intro conjI)
  show "asyncExec (\<lambda>u. Return (Prim (Num 10))) = Some (Done (Prim (Num 10)))"
    using asyncExec_feeds_value_back
      [where generator = "\<lambda>u. Return (Prim (Num 10))" and r = "Prim (Num 10)"]
    by simp
  show "asyncExec (\<lambda>u. Yield (Promise 0) (\<lambda>v. Return (times_two v)) (\<lambda>e. Throw e))
     = Some (Suspended (Promise 0) (\<lambda>v. Return (times_two v)) (\<lambda>e. Throw e))"
    using asyncExec_feeds_value_back
      [where generator = "\<lambda>u. Yield (Promise 0) (\<lambda>v. Return (times_two v)) (\<lambda>e. Throw e)"
         and n = 0 and on_next' = "\<lambda>v. Return (times_two v)" and on_throw' = "\<lambda>e. Throw e"]
    by blast
  have "(\<lambda>v. Return (times_two v)) (Prim (Num 5)) = Return (Prim (Num 10))
      \<and> \<not> is_pending (Prim (Num 10))"
    by (simp add: times_two_def)
  then show "settle (Suspended (Promise 0) (\<lambda>v. Return (times_two v)) (\<lambda>e. Throw e))
        (Fulfilled (Prim (Num 5))) = Some (Done (Prim (Num 10)))"
    using asyncExec_feeds_value_back
      [where p = "Promise 0" and on_next = "\<lambda>v. Return (times_two v)"
         and on_throw = "\<lambda>e. Throw e" and v = "Prim (Num 5)" and r = "Prim (Num 10)"]
    by blast
  show "settle (Suspended (Promise 0) (\<lambda>v. Return (Promise 1)) (\<lambda>e. Throw e))
        (Fulfilled (Prim (Num 5))) = Some (Following (Promise 1))"
    using asyncExec_feeds_value_back
      [where p = "Promise 0" and on_next = "\<lambda>v. Return (Promise 1)"
         and on_throw = "\<lambda>e. Throw e" and v = "Prim (Num 5)" and m = 1]
    by blast
qed

text \<open>
  Claim C3 as it is written says that the outer result settles to the cursor's final
  value whenever the cursor completes. A routine that awaits a promise and then returns
  another promise, which is later rejected with \<open>E\<close>, completes with that promise as its
  final value; the outer promise is not fulfilled with it, and ends rejected with \<open>E\<close>.
\<close>

theorem asyncExec_final_promise_counterexample:
  "settle (Suspended (Promise 0) (\<lambda>v. Return (Promise 1)) (\<lambda>e. Throw e))
      (Fulfilled (Prim (Num 5)))
     \<noteq> Some (Done (Promise 1))
   \<and> Option.bind
        (settle (Suspended (Promise 0) (\<lambda>v. Return (Promise 1)) (\<lambda>e. Throw e))
           (Fulfilled (Prim (Num 5))))
        (\<lambda>run. settle run (Rejected (Str ''E'')))
     = Some (Failed (Str ''E''))"
  by (simp add: resumeGenerator_def processIteration_Return)

text \<open>
  Claim C2, as the code has it. A run suspended on a pending value that settles with the
  failure \<open>E\<close> continues with the outcome of the routine's entry point \<open>on_throw\<close> of
  that suspension point at \<open>E\<close>: the failure is raised where the routine is paused.
  When the routine catches it and returns a \<open>fallback\<close> that is not itself a pending
  value, the outer promise is fulfilled with \<open>fallback\<close>; when it returns a pending
  value, the outer promise adopts that; when it catches the failure and goes on to await
  another promise, the run is suspended on that promise; when a failure \<open>e\<close> (\<open>E\<close>
  itself or another) leaves the routine, the outer promise is rejected with \<open>e\<close>.
  \<open>Failed\<close> is terminal: no later settlement changes it.
\<close>

theorem asyncExec_raises_failure_inside:
  "settle (Suspended p on_next on_throw) (Rejected E) = processIteration (on_throw E)
   \<and> (on_throw E = Return fallback \<and> \<not> is_pending fallback \<longrightarrow>
        settle (Suspended p on_next on_throw) (Rejected E) = Some (Done fallback))
   \<and> (on_throw E = Return (Promise m) \<longrightarrow>
        settle (Suspended p on_next on_throw) (Rejected E) = Some (Following (Promise m)))
   \<and> (on_throw E = Yield (Promise n) on_next' on_throw' \<longrightarrow>
        settle (Suspended p on_next on_throw) (Rejected E)
          = Some (Suspended (Promise n) on_next' on_throw'))
   \<and> (on_throw E = Throw e \<longrightarrow>
        settle (Suspended p on_next on_throw) (Rejected E) = Some (Failed e))
   \<and> settle (Failed e) s = Some (Failed e)"
  by (simp add: throwGenerator_def processIteration_Return processIteration_Throw
        processIteration_promise resolve_plain)

text \<open>
  The scenarios of the spec: a routine that catches the failure and returns a fallback
  string, and a routine that does not catch it; and routines that catch the failure and
  await a second promise, or return a promise.
\<close>

theorem asyncExec_raises_failure_inside_witness:
  "settle (Suspended (Promise 0) (\<lambda>v. Return v) (\<lambda>e. Return (Str ''Could not load.'')))
      (Rejected (Str ''E''))
     = Some (Done (Str ''Could not load.''))
   \<and> settle (Suspended (Promise 0) (\<lambda>v. Return v) (\<lambda>e. Throw e)) (Rejected (Str ''E''))
     = Some (Failed (Str ''E''))
   \<and> settle (Suspended (Promise 0) (\<lambda>v. Return v)
        (\<lambda>e. Yield (Promise 1) (\<lambda>v. Return v) (\<lambda>e. Throw e))) (Rejected (Str ''E''))
     = Some (Suspended (Promise 1) (\<lambda>v. Return v) (\<lambda>e. Throw e))
   \<and> settle (Suspended (Promise 0) (\<lambda>v. Return v) (\<lambda>e. Return (Promise 7)))
        (Rejected (Str ''E''))
     = Some (Following (Promise 7))"
proof (intro conjI)
  have "(\<lambda>e. Return (Str ''Could not load.'')) (Str ''E'') = Return (Str ''Could not load.'')
      \<and> \<not> is_pending (Str ''Could not load.'')"
    by simp
  then show "settle (Suspended (Promise 0) (\<lambda>v. Return v) (\<lambda>e. Return (Str ''Could not load.'')))
      (Rejected (Str ''E'')) = Some (Done (Str ''Could not load.''))"
    using asyncExec_raises_failure_inside
      [where p = "Promise 0" and on_next = "\<lambda>v. Return v"
         and on_throw = "\<lambda>e. Return (Str ''Could not load.'')" and E = "Str ''E''"
         and fallback = "Str ''Could not load.''"]
    by blast
  show "settle (Suspended (Promise 0) (\<lambda>v. Return v) (\<lambda>e. Throw e)) (Rejected (Str ''E''))
      = Some (Failed (Str ''E''))"
    using asyncExec_raises_failure_inside
      [where p = "Promise 0" and on_next = "\<lambda>v. Return v" and on_throw = "\<lambda>e. Throw e"
         and E = "Str ''E''" and e = "Str ''E''"]
    by blast
  show "settle (Suspended (Promise 0) (\<lambda>v. Return v)
        (\<lambda>e. Yield (Promise 1) (\<lambda>v. Return v) (\<lambda>e. Throw e))) (Rejected (Str ''E''))
     = Some (Suspended (Promise 1) (\<lambda>v. Return v) (\<lambda>e. Throw e))"
    using asyncExec_raises_failure_inside
      [where p = "Promise 0" and on_next = "\<lambda>v. Return v"
         and on_throw = "\<lambda>e. Yield (Promise 1) (\<lambda>v. Return v) (\<lambda>e. Throw e)"
         and E = "Str ''E''" and n = 1 and on_next' = "\<lambda>v. Return v"
         and on_throw' = "\<lambda>e. Throw e"]
    by blast
  show "settle (Suspended (Promise 0) (\<lambda>v. Return v) (\<lambda>e. Return (Promise 7)))
        (Rejected (Str ''E'')) = Some (Following (Promise 7))"
    using asyncExec_raises_failure_inside
      [where p = "Promise 0" and on_next = "\<lambda>v. Return v"
         and on_throw = "\<lambda>e. Return (Promise 7)" and E = "Str ''E''" and m = 7]
    by blast
qed

text \<open>
  Claim C2 as it is written says that the outer result settles successfully to the
  fallback whenever the routine catches the failure and returns one. A routine that
  catches \<open>E\<close> and returns a promise, which is later rejected with \<open>F\<close>, leaves the outer
  promise rejected with \<open>F\<close>.
\<close>

theorem asyncExec_fallback_promise_counterexample:
  "settle (Suspended (Promise 0) (\<lambda>v. Return v) (\<lambda>e. Return (Promise 7)))
      (Rejected (Str ''E''))
     \<noteq> Some (Done (Promise 7))
   \<and> Option.bind
        (settle (Suspended (Promise 0) (\<lambda>v. Return v) (\<lambda>e. Return (Promise 7)))
           (Rejected (Str ''E'')))
        (\<lambda>run. settle run (Rejected (Str ''F'')))
     = Some (Failed (Str ''F''))"
  by (simp add: throwGenerator_def processIteration_Return)

text \<open>
  Claim C9 says that a yielded value without the pending-value capability is taken as a
  result that is already there, and the routine is resumed with it at once. That is so
  for an object without \<open>then\<close>. For a primitive the test \<open>'then' in iteration.value\<close>
  throws, and the run fails: the routine \<open>const v = yield 5; return v\<close> is not resumed
  with 5, its run is \<open>Failed\<close> with the \<open>TypeError\<close>.
\<close>

theorem asyncExec_rejects_primitive_yield:
  "asyncExec (\<lambda>u. Yield (Prim (Num 5)) (\<lambda>v. Return v) (\<lambda>e. Throw e))
     = Some (Failed (Exception (TypeError ''Cannot use in operator to search for then'')))"
  by (simp add: asyncExec_def resumeGenerator_def processIteration_Yield)

lemma processIteration_plain_object:
  "then_in v = Inr False \<Longrightarrow>
   processIteration (Yield v on_next on_throw) = resumeGenerator on_next on_throw v"
  by (simp add: processIteration_Yield resumeGenerator_def)

lemma processIteration_primitive:
  "processIteration (Yield (Prim p) on_next on_throw)
     = Some (Failed (Exception (TypeError ''Cannot use in operator to search for then'')))"
  by (simp add: processIteration_Yield)

end
